theory Spec2Isabelle
  imports Main
begin

section \<open>Query analysis: from codec trees to TypeScript type signatures\<close>

text \<open>
  A shallow embedding of \<^verbatim>\<open>packages/driver/src/reflection/analyzeQuery.ts\<close>:
  the cardinality wrapper \<^verbatim>\<open>applyCardinalityToTsType\<close>, the recursive codec walker
  \<^verbatim>\<open>walkCodec\<close> and the orchestrating \<^verbatim>\<open>analyzeQuery\<close>.

  Strings are byte strings. A thrown \<^verbatim>\<open>Error\<close> is a value of the type \<open>error\<close>; the mutable
  \<^verbatim>\<open>Set<string>\<close> that the context shares by reference is passed in and returned explicitly,
  also when the walk throws.
\<close>

subsection \<open>Data model\<close>

text \<open>
  Modelled from the spec: the enum \<^verbatim>\<open>Cardinality\<close> of \<^verbatim>\<open>ifaces.ts\<close> and the constants
  \<^verbatim>\<open>ONE\<close>, \<^verbatim>\<open>AT_MOST_ONE\<close>, \<^verbatim>\<open>MANY\<close>, \<^verbatim>\<open>AT_LEAST_ONE\<close> of \<^verbatim>\<open>codecs/consts.ts\<close>, which the
  walker imports. They are the four tags the switch names, each constant being the enum
  member of the same name. A TypeScript enum is a number at run time, so any further
  value (such as a "no result" tag) is \<open>OtherCardinality n\<close>.
\<close>

datatype Cardinality = ONE | AT_MOST_ONE | MANY | AT_LEAST_ONE | OtherCardinality int

text \<open>An entry of \<^verbatim>\<open>ObjectCodec.getFields()\<close>, as far as the walker reads it.\<close>

record Field =
  name :: string
  cardinality :: Cardinality

text \<open>
  Modelled from the spec: the codec classes of \<^verbatim>\<open>codecs/*.ts\<close>, which the walker imports
  and tests with \<^verbatim>\<open>instanceof\<close>; one constructor per class, with what the walker reads.
  \<^item> \<open>ScalarCodec tsType importedType values\<close>: \<^verbatim>\<open>EnumCodec\<close> is the subclass of
    \<^verbatim>\<open>ScalarCodec\<close> that has \<^verbatim>\<open>values\<close>, so \<open>values = Some vs\<close> stands for an enum codec.
  \<^item> \<open>ObjectCodec fields subCodecs\<close> and \<open>NamedTupleCodec names subCodecs\<close> keep the two
    sequences apart, as \<^verbatim>\<open>getFields()\<close>/\<^verbatim>\<open>getNames()\<close> and \<^verbatim>\<open>getSubcodecs()\<close> do.
  \<^item> \<open>ArrayCodec\<close>, \<open>RangeCodec\<close>, \<open>MultiRangeCodec\<close> and \<open>SetCodec\<close> have exactly one
    sub-codec, read as \<^verbatim>\<open>getSubcodecs()[0]\<close>.
  \<^item> \<open>OtherCodec kind\<close> is a codec of any class the walker does not test for.
\<close>

datatype codec =
    NullCodec
  | ScalarCodec string bool "string list option"
  | ObjectCodec "Field list" "codec list"
  | NamedTupleCodec "string list" "codec list"
  | ArrayCodec codec
  | TupleCodec "codec list"
  | RangeCodec codec
  | MultiRangeCodec codec
  | SetCodec codec
  | OtherCodec string

text \<open>
  Modelled from the spec: the method \<^verbatim>\<open>getKind()\<close> of the codec classes, which names the
  kind of a codec. The walker calls it only where no \<^verbatim>\<open>instanceof\<close> test matched, that
  is on a \<open>SetCodec\<close> or an \<open>OtherCodec\<close>; the kind of a set codec is taken to be
  \<^verbatim>\<open>set\<close>, the kind of another codec is the name it carries.
\<close>

fun getKind :: "codec \<Rightarrow> string" where
  "getKind NullCodec = ''scalar''"
| "getKind (ScalarCodec _ _ _) = ''scalar''"
| "getKind (ObjectCodec _ _) = ''object''"
| "getKind (NamedTupleCodec _ _) = ''namedtuple''"
| "getKind (ArrayCodec _) = ''array''"
| "getKind (TupleCodec _) = ''tuple''"
| "getKind (RangeCodec _) = ''range''"
| "getKind (MultiRangeCodec _) = ''multirange''"
| "getKind (SetCodec _) = ''set''"
| "getKind (OtherCodec kind) = kind"

text \<open>\<^verbatim>\<open>subCodec instanceof ScalarCodec\<close>\<close>

fun isScalarCodec :: "codec \<Rightarrow> bool" where
  "isScalarCodec (ScalarCodec _ _ _) = True"
| "isScalarCodec _ = False"

text \<open>
  The errors the code throws, one constructor per \<^verbatim>\<open>throw\<close>:
  \<^item> \<open>UnexpectedCardinality c\<close>: \<^verbatim>\<open>Error(`unexpected cardinality: ${cardinality}`)\<close>
  \<^item> \<open>SetUpperCardinalityOne\<close>:
    \<^verbatim>\<open>Error("subcodec is SetCodec, but upper cardinality is one")\<close>
  \<^item> \<open>RangeSubtypeNotScalar\<close>: \<^verbatim>\<open>Error("expected range subtype to be scalar type")\<close>
  \<^item> \<open>MultiRangeSubtypeNotScalar\<close>:
    \<^verbatim>\<open>Error("expected multirange subtype to be scalar type")\<close>
  \<^item> \<open>UnexpectedCodecKind k\<close>: \<^verbatim>\<open>Error(`Unexpected codec kind: ${codec.getKind()}`)\<close>
  \<^item> \<open>TypeError\<close>: the run-time error of calling \<^verbatim>\<open>getKind\<close> on \<^verbatim>\<open>undefined\<close>, when
    \<^verbatim>\<open>subCodecs[i]\<close> is read past the end of the sub-codec array
  \<^item> \<open>NegotiationError m\<close>: a rejection of the awaited \<^verbatim>\<open>parseQuery\<close>
\<close>

datatype error =
    UnexpectedCardinality Cardinality
  | SetUpperCardinalityOne
  | RangeSubtypeNotScalar
  | MultiRangeSubtypeNotScalar
  | UnexpectedCodecKind string
  | TypeError
  | NegotiationError string

text \<open>
  The generation context without its \<^verbatim>\<open>imports\<close> member, which is threaded through the
  walk as a value of its own: \<^verbatim>\<open>{ ...ctx, indent: ... }\<close> copies the reference to the one
  set, so every call of a walk writes into the same set.
\<close>

record ctx =
  indent :: string
  optionalNulls :: bool
  readonly :: bool

text \<open>
  \<^verbatim>\<open>Set<string>\<close> with \<^verbatim>\<open>add\<close>: a JavaScript set keeps its members in insertion order
  and ignores the insertion of a member it has.
\<close>

definition Set_add :: "string \<Rightarrow> string list \<Rightarrow> string list" where
  "Set_add x s = (if x \<in> set s then s else s @ [x])"

subsection \<open>String helpers\<close>

text \<open>\<^verbatim>\<open>Array.prototype.join\<close> on an array of strings.\<close>

fun join :: "string \<Rightarrow> string list \<Rightarrow> string" where
  "join sep [] = []"
| "join sep [x] = x"
| "join sep (x # y # ys) = x @ sep @ join sep (y # ys)"

text \<open>
  \<^verbatim>\<open>JSON.stringify\<close> on a string: the string in double quotes, with the double quote, the
  backslash and the control characters below U+0020 escaped. Bytes from 0x80 on belong to
  multi-byte characters and are kept.
\<close>

definition hexDigit :: "nat \<Rightarrow> char" where
  "hexDigit n = ''0123456789abcdef'' ! (n mod 16)"

definition quoteChar :: "char \<Rightarrow> string" where
  "quoteChar c =
     (if c = CHR 0x22 then [CHR 0x5C, CHR 0x22]
      else if c = CHR 0x5C then [CHR 0x5C, CHR 0x5C]
      else if c = CHR 0x08 then [CHR 0x5C, CHR ''b'']
      else if c = CHR 0x0C then [CHR 0x5C, CHR ''f'']
      else if c = CHR 0x0A then [CHR 0x5C, CHR ''n'']
      else if c = CHR 0x0D then [CHR 0x5C, CHR ''r'']
      else if c = CHR 0x09 then [CHR 0x5C, CHR ''t'']
      else if (of_char c :: nat) < 0x20
        then [CHR 0x5C, CHR ''u'', CHR ''0'', CHR ''0'',
              hexDigit (of_char c div 16), hexDigit (of_char c mod 16)]
      else [c])"

definition JSON_stringify :: "string \<Rightarrow> string" where
  "JSON_stringify s = [CHR 0x22] @ concat (map quoteChar s) @ [CHR 0x22]"

subsection \<open>The cardinality wrapper\<close>

fun applyCardinalityToTsType :: "string \<Rightarrow> Cardinality \<Rightarrow> error + string" where
  "applyCardinalityToTsType type MANY = Inr (type @ ''[]'')"
| "applyCardinalityToTsType type ONE = Inr type"
| "applyCardinalityToTsType type AT_MOST_ONE = Inr (type @ '' | null'')"
| "applyCardinalityToTsType type AT_LEAST_ONE =
     Inr (''[('' @ type @ ''), ...('' @ type @ '')[]]'')"
| "applyCardinalityToTsType type (OtherCardinality n) =
     Inl (UnexpectedCardinality (OtherCardinality n))"

subsection \<open>The codec walker\<close>

text \<open>
  The tail of the callback given to \<^verbatim>\<open>fields.map\<close>: the template literal that renders
  one field from the outcome of walking its sub-codec. The walk comes first, then the
  wrapper, which may throw in its turn.
\<close>

fun fieldLine :: "ctx \<Rightarrow> Field \<Rightarrow> (error + string) \<times> string list
    \<Rightarrow> (error + string) \<times> string list" where
  "fieldLine c field (Inl e, imps) = (Inl e, imps)"
| "fieldLine c field (Inr t, imps) =
     (case applyCardinalityToTsType t (cardinality field) of
        Inl e \<Rightarrow> (Inl e, imps)
      | Inr wrapped \<Rightarrow>
          (Inr (indent c @ ''  '' @ JSON_stringify (name field)
                @ (if optionalNulls c \<and> cardinality field = AT_MOST_ONE then ''?'' else '''')
                @ '': '' @ wrapped @ '';''),
           imps))"

text \<open>The template literal around the joined field lines, and the \<^verbatim>\<open>Readonly<>\<close> wrap.\<close>

fun objectShape :: "ctx \<Rightarrow> (error + string list) \<times> string list
    \<Rightarrow> (error + string) \<times> string list" where
  "objectShape c (Inl e, imps) = (Inl e, imps)"
| "objectShape c (Inr lines, imps) =
     (let shape = ''{\<newline>'' @ join ''\<newline>'' lines @ ''\<newline>'' @ indent c @ ''}''
      in (Inr (if readonly c then ''Readonly<'' @ shape @ ''>'' else shape), imps))"

text \<open>
  \<open>walkCodec codec c imps\<close> is the walk of \<open>codec\<close> in the context \<open>c\<close> whose \<^verbatim>\<open>imports\<close>
  set holds \<open>imps\<close>; it gives what the walk returns or throws, and the set afterwards.
  \<open>walkField\<close> is the callback of \<^verbatim>\<open>fields.map\<close>, \<open>walkFields\<close> the \<^verbatim>\<open>map\<close> over the fields
  with \<^verbatim>\<open>subCodecs[i]\<close> read by position, \<open>walkSubcodecs\<close> the \<^verbatim>\<open>map\<close> over the sub-codecs
  of a tuple.
\<close>

function (sequential) walkCodec :: "codec \<Rightarrow> ctx \<Rightarrow> string list \<Rightarrow> (error + string) \<times> string list"
  and walkField :: "ctx \<Rightarrow> Field \<Rightarrow> codec \<Rightarrow> string list \<Rightarrow> (error + string) \<times> string list"
  and walkFields :: "ctx \<Rightarrow> Field list \<Rightarrow> codec list \<Rightarrow> string list
    \<Rightarrow> (error + string list) \<times> string list"
  and walkSubcodecs :: "ctx \<Rightarrow> codec list \<Rightarrow> string list
    \<Rightarrow> (error + string list) \<times> string list"
where
  "walkCodec NullCodec c imps = (Inr ''null'', imps)"
| "walkCodec (ScalarCodec tsType importedType (Some vals)) c imps =
     (Inr (''('' @ join '' | '' (map JSON_stringify vals) @ '')''), imps)"
| "walkCodec (ScalarCodec tsType importedType None) c imps =
     (Inr tsType, if importedType then Set_add tsType imps else imps)"
| "walkCodec (ObjectCodec flds subCodecs) c imps =
     objectShape c (walkFields c flds subCodecs imps)"
| "walkCodec (NamedTupleCodec names subCodecs) c imps =
     objectShape c
       (walkFields c (map (\<lambda>n. \<lparr>name = n, cardinality = ONE\<rparr>) names) subCodecs imps)"
| "walkCodec (ArrayCodec subCodec) c imps =
     (case walkCodec subCodec c imps of
        (Inl e, imps') \<Rightarrow> (Inl e, imps')
      | (Inr t, imps') \<Rightarrow>
          (Inr ((if readonly c then ''readonly '' else '''') @ t @ ''[]''), imps'))"
| "walkCodec (TupleCodec subCodecs) c imps =
     (case walkSubcodecs c subCodecs imps of
        (Inl e, imps') \<Rightarrow> (Inl e, imps')
      | (Inr ts, imps') \<Rightarrow>
          (Inr ((if readonly c then ''readonly '' else '''') @ ''['' @ join '', '' ts @ '']''),
           imps'))"
| "walkCodec (RangeCodec subCodec) c imps =
     (if \<not> isScalarCodec subCodec then (Inl RangeSubtypeNotScalar, imps)
      else case walkCodec subCodec c (Set_add ''Range'' imps) of
             (Inl e, imps') \<Rightarrow> (Inl e, imps')
           | (Inr t, imps') \<Rightarrow> (Inr (''Range<'' @ t @ ''>''), imps'))"
| "walkCodec (MultiRangeCodec subCodec) c imps =
     (if \<not> isScalarCodec subCodec then (Inl MultiRangeSubtypeNotScalar, imps)
      else case walkCodec subCodec c (Set_add ''MultiRange'' imps) of
             (Inl e, imps') \<Rightarrow> (Inl e, imps')
           | (Inr t, imps') \<Rightarrow> (Inr (''MultiRange<'' @ t @ ''>''), imps'))"
| "walkCodec (SetCodec subCodec) c imps =
     (Inl (UnexpectedCodecKind (getKind (SetCodec subCodec))), imps)"
| "walkCodec (OtherCodec kind) c imps =
     (Inl (UnexpectedCodecKind (getKind (OtherCodec kind))), imps)"
| "walkField c field (SetCodec subCodec) imps =
     (if \<not> (cardinality field = MANY \<or> cardinality field = AT_LEAST_ONE)
      then (Inl SetUpperCardinalityOne, imps)
      else fieldLine c field (walkCodec subCodec (c\<lparr>indent := indent c @ ''  ''\<rparr>) imps))"
| "walkField c field subCodec imps =
     fieldLine c field (walkCodec subCodec (c\<lparr>indent := indent c @ ''  ''\<rparr>) imps)"
| "walkFields c [] subCodecs imps = (Inr [], imps)"
| "walkFields c (field # flds) [] imps = (Inl TypeError, imps)"
| "walkFields c (field # flds) (subCodec # subCodecs) imps =
     (case walkField c field subCodec imps of
        (Inl e, imps') \<Rightarrow> (Inl e, imps')
      | (Inr line, imps') \<Rightarrow>
          (case walkFields c flds subCodecs imps' of
             (Inl e, imps'') \<Rightarrow> (Inl e, imps'')
           | (Inr lines, imps'') \<Rightarrow> (Inr (line # lines), imps'')))"
| "walkSubcodecs c [] imps = (Inr [], imps)"
| "walkSubcodecs c (subCodec # subCodecs) imps =
     (case walkCodec subCodec c imps of
        (Inl e, imps') \<Rightarrow> (Inl e, imps')
      | (Inr t, imps') \<Rightarrow>
          (case walkSubcodecs c subCodecs imps' of
             (Inl e, imps'') \<Rightarrow> (Inl e, imps'')
           | (Inr ts, imps'') \<Rightarrow> (Inr (t # ts), imps'')))"

  by pat_completeness auto

text \<open>
  Every call descends into the codec tree: the walk of a codec weighs twice its size, the
  callback on a field one more than the walk of its sub-codec.
\<close>

termination
  by (relation "measure (\<lambda>x. case x of
        Inl (Inl (codec, c, imps)) \<Rightarrow> 2 * size codec
      | Inl (Inr (c, field, codec, imps)) \<Rightarrow> 2 * size codec + 1
      | Inr (Inl (c, flds, subCodecs, imps)) \<Rightarrow> 2 * size_list size subCodecs
      | Inr (Inr (c, subCodecs, imps)) \<Rightarrow> 2 * size_list size subCodecs)")
    auto

subsection \<open>The query analyzer\<close>

record QueryType =
  args :: string
  result :: string
  cardinality :: Cardinality
  query :: string
  "imports" :: "string list"

text \<open>
  \<^verbatim>\<open>parseQuery\<close> talks to the server through a pooled connection. Its awaited outcome is
  the parameter \<open>parsed\<close>: a rejection, or the triple of the cardinality, the input codec
  and the output codec. Both walks start from the one fresh set, the second from what the
  first left in it; an error of a walk or of the wrapper ends the analysis.
\<close>

definition analyzeQuery :: "error + Cardinality \<times> codec \<times> codec \<Rightarrow> string \<Rightarrow> error + QueryType" where
  "analyzeQuery parsed q =
     (case parsed of
        Inl e \<Rightarrow> Inl e
      | Inr (topCardinality, inCodec, outCodec) \<Rightarrow>
          (case walkCodec inCodec \<lparr>indent = [], optionalNulls = True, readonly = True\<rparr> [] of
             (Inl e, imps) \<Rightarrow> Inl e
           | (Inr a, imps) \<Rightarrow>
               (case walkCodec outCodec
                       \<lparr>indent = [], optionalNulls = False, readonly = False\<rparr> imps of
                  (Inl e, imps') \<Rightarrow> Inl e
                | (Inr t, imps') \<Rightarrow>
                    (case applyCardinalityToTsType t topCardinality of
                       Inl e \<Rightarrow> Inl e
                     | Inr r \<Rightarrow>
                         Inr \<lparr>args = a, result = r, cardinality = topCardinality, query = q,
                              imports = imps'\<rparr>))))"

subsection \<open>The calls of the walker\<close>




subsection \<open>Comparing two runs of a walker\<close>

text \<open>
  \<open>agree r i r' j\<close> relates the outcome \<open>r\<close> of a walk started with the imports \<open>i\<close> to
  the outcome \<open>r'\<close> of the same walk started with the imports \<open>j\<close>: both return or throw
  the same, neither has lost a name, and both have added the same names.
\<close>

definition agree :: "'a \<times> string list \<Rightarrow> string list \<Rightarrow> 'a \<times> string list \<Rightarrow> string list \<Rightarrow> bool" where
  "agree r i r' j \<longleftrightarrow>
     fst r = fst r' \<and> set i \<subseteq> set (snd r) \<and> set j \<subseteq> set (snd r')
     \<and> set (snd r) \<union> set j = set (snd r') \<union> set i"

section \<open>Properties\<close>

subsection \<open>Helper facts\<close>

lemma set_Set_add: "set (Set_add x s) = insert x (set s)"
  by (auto simp: Set_add_def)

lemma distinct_Set_add: "distinct s \<Longrightarrow> distinct (Set_add x s)"
  by (auto simp: Set_add_def)

lemma quoteChar_plain:
  "ch \<noteq> CHR 0x22 \<Longrightarrow> ch \<noteq> CHR 0x5C \<Longrightarrow> 0x20 \<le> (of_char ch :: nat) \<Longrightarrow> quoteChar ch = [ch]"
  by (auto simp: quoteChar_def)

lemma concat_quoteChar_plain:
  "\<forall>ch\<in>set v. ch \<noteq> CHR 0x22 \<and> ch \<noteq> CHR 0x5C \<and> 0x20 \<le> (of_char ch :: nat)
    \<Longrightarrow> concat (map quoteChar v) = v"
  by (induction v) (simp_all add: quoteChar_plain)

lemma JSON_stringify_plain:
  "\<forall>ch\<in>set v. ch \<noteq> CHR 0x22 \<and> ch \<noteq> CHR 0x5C \<and> 0x20 \<le> (of_char ch :: nat)
    \<Longrightarrow> JSON_stringify v = [CHR 0x22] @ v @ [CHR 0x22]"
  by (simp add: JSON_stringify_def concat_quoteChar_plain)

lemma map_JSON_stringify_plain:
  "\<forall>v\<in>set vs. \<forall>ch\<in>set v. ch \<noteq> CHR 0x22 \<and> ch \<noteq> CHR 0x5C \<and> 0x20 \<le> (of_char ch :: nat)
    \<Longrightarrow> map JSON_stringify vs = map (\<lambda>v. [CHR 0x22] @ v @ [CHR 0x22]) vs"
  by (induction vs) (simp_all add: JSON_stringify_plain)

text \<open>
  The walkers never look into the imports: started with other imports, a walk returns or
  throws the same and adds the same names (\<open>walk_agree\<close>). So the signature does not
  depend on the imports, nothing is ever removed from them, and what a walk leaves in
  them is what it was given together with what it registers on its own.
\<close>

lemma snd_fieldLine: "snd (fieldLine c field r) = snd r"
  by (cases "(c, field, r)" rule: fieldLine.cases) (auto split: sum.splits)

lemma snd_objectShape: "snd (objectShape c r) = snd r"
  by (cases "(c, r)" rule: objectShape.cases) (auto simp: Let_def)

lemma fst_fieldLine: "fst (fieldLine c field (x, i)) = fst (fieldLine c field (x, j))"
  by (cases x) (simp_all split: sum.splits)

lemma fst_objectShape: "fst (objectShape c (x, i)) = fst (objectShape c (x, j))"
  by (cases x) (simp_all add: Let_def)

lemma agree_pair: "agree (x, k) i (x', k') j \<longleftrightarrow>
    x = x' \<and> set i \<subseteq> set k \<and> set j \<subseteq> set k' \<and> set k \<union> set j = set k' \<union> set i"
  by (simp add: agree_def)

lemma agree_base: "agree (x, i) i (x, j) j"
  by (auto simp: agree_pair)

lemma agree_add: "agree (x, Set_add t i) i (x, Set_add t j) j"
  by (auto simp: agree_pair set_Set_add)

lemma agree_fieldLine:
  assumes "agree r i r' j"
  shows "agree (fieldLine c field r) i (fieldLine c field r') j"
proof -
  obtain x k where r: "r = (x, k)" by (cases r)
  obtain k' where r': "r' = (x, k')" using assms r by (cases r') (simp add: agree_pair)
  have "fst (fieldLine c field (x, k)) = fst (fieldLine c field (x, k'))"
    by (rule fst_fieldLine)
  with assms show ?thesis
    unfolding r r' agree_def snd_fieldLine by simp
qed

lemma agree_objectShape:
  assumes "agree r i r' j"
  shows "agree (objectShape c r) i (objectShape c r') j"
proof -
  obtain x k where r: "r = (x, k)" by (cases r)
  obtain k' where r': "r' = (x, k')" using assms r by (cases r') (simp add: agree_pair)
  have "fst (objectShape c (x, k)) = fst (objectShape c (x, k'))"
    by (rule fst_objectShape)
  with assms show ?thesis
    unfolding r r' agree_def snd_objectShape by simp
qed

lemma agree_map:
  assumes "agree r i r' j"
  shows "agree (case r of (Inl e, k) \<Rightarrow> (Inl e, k) | (Inr t, k) \<Rightarrow> (Inr (g t), k)) i
         (case r' of (Inl e, k) \<Rightarrow> (Inl e, k) | (Inr t, k) \<Rightarrow> (Inr (g t), k)) j"
proof -
  obtain x k where r: "r = (x, k)" by (cases r)
  obtain k' where r': "r' = (x, k')" using assms r by (cases r') (simp add: agree_pair)
  from assms show ?thesis
    unfolding r r' by (cases x) (simp_all add: agree_pair)
qed

lemma agree_pre_add: "agree r (Set_add x i) r' (Set_add x j) \<Longrightarrow> agree r i r' j"
  unfolding agree_def set_Set_add by blast

lemma agree_seq:
  assumes "agree r i r' j"
    and "\<And>a. fst r = Inr a \<Longrightarrow> agree (W (snd r)) (snd r) (W (snd r')) (snd r')"
  shows "agree (case r of (Inl e, k) \<Rightarrow> (Inl e, k)
                 | (Inr a, k) \<Rightarrow> (case W k of (Inl e, k') \<Rightarrow> (Inl e, k')
                                  | (Inr b, k') \<Rightarrow> (Inr (g a b), k'))) i
               (case r' of (Inl e, k) \<Rightarrow> (Inl e, k)
                 | (Inr a, k) \<Rightarrow> (case W k of (Inl e, k') \<Rightarrow> (Inl e, k')
                                  | (Inr b, k') \<Rightarrow> (Inr (g a b), k'))) j"
proof (cases "fst r")
  case (Inl e)
  obtain y where r: "r = (Inl e, y)" using Inl by (cases r) auto
  obtain y' where r': "r' = (Inl e, y')" using Inl assms(1) by (cases r') (auto simp: agree_def)
  from assms(1) show ?thesis unfolding r r' by (simp add: agree_pair)
next
  case (Inr a)
  obtain y where r: "r = (Inr a, y)" using Inr by (cases r) auto
  obtain y' where r': "r' = (Inr a, y')" using Inr assms(1) by (cases r') (auto simp: agree_def)
  from assms(2)[OF Inr] r r' have 2: "agree (W y) y (W y') y'" by simp
  obtain u z where Wy: "W y = (u, z)" by (cases "W y")
  obtain u' z' where Wy': "W y' = (u', z')" by (cases "W y'")
  from 2 have u: "u' = u" and m: "set y \<subseteq> set z" "set y' \<subseteq> set z'"
    and s: "set z \<union> set y' = set z' \<union> set y"
    unfolding Wy Wy' agree_pair by blast+
  from assms(1) have m1: "set i \<subseteq> set y" "set j \<subseteq> set y'"
    and s1: "set y \<union> set j = set y' \<union> set i"
    unfolding r r' agree_pair by blast+
  have "set i \<subseteq> set z" "set j \<subseteq> set z'" "set z \<union> set j = set z' \<union> set i"
    using m m1 s s1 by blast+
  then have "agree (W y) i (W y') j"
    unfolding Wy Wy' u agree_pair by blast
  then show ?thesis
    unfolding r r' by (simp add: agree_map)
qed

lemma walk_agree:
  "\<forall>j. agree (walkCodec codec c imps) imps (walkCodec codec c j) j"
  "\<forall>j. agree (walkField c field codec imps) imps (walkField c field codec j) j"
  "\<forall>j. agree (walkFields c flds subCodecs imps) imps (walkFields c flds subCodecs j) j"
  "\<forall>j. agree (walkSubcodecs c subCodecs imps) imps (walkSubcodecs c subCodecs j) j"
proof (induction codec c imps and c field codec imps and c flds subCodecs imps
    and c subCodecs imps rule: walkCodec_walkField_walkFields_walkSubcodecs.induct)
  case (3 tsType importedType c imps)
  show ?case by (simp add: agree_add agree_base)
next
  case (8 subCodec c imps)
  show ?case
  proof (cases "isScalarCodec subCodec")
    case True
    with 8 have "agree (walkCodec subCodec c (Set_add ''Range'' imps)) imps
        (walkCodec subCodec c (Set_add ''Range'' j)) j" for j
      by (blast intro: agree_pre_add)
    with True show ?thesis by (simp add: agree_map)
  next
    case False
    then show ?thesis by (simp add: agree_base)
  qed
next
  case (9 subCodec c imps)
  show ?case
  proof (cases "isScalarCodec subCodec")
    case True
    with 9 have "agree (walkCodec subCodec c (Set_add ''MultiRange'' imps)) imps
        (walkCodec subCodec c (Set_add ''MultiRange'' j)) j" for j
      by (blast intro: agree_pre_add)
    with True show ?thesis by (simp add: agree_map)
  next
    case False
    then show ?thesis by (simp add: agree_base)
  qed
next
  case (12 c field subCodec imps)
  show ?case
  proof (cases "Field.cardinality field = MANY \<or> Field.cardinality field = AT_LEAST_ONE")
    case True
    with 12 have "agree (walkCodec subCodec (c\<lparr>indent := indent c @ ''  ''\<rparr>) imps) imps
        (walkCodec subCodec (c\<lparr>indent := indent c @ ''  ''\<rparr>) j) j" for j
      by blast
    with True show ?thesis by (simp add: agree_fieldLine)
  next
    case False
    then show ?thesis by (simp add: agree_base)
  qed
next
  case (1 c imps) show ?case by (simp add: agree_base)
next
  case (2 tsType importedType vals c imps) show ?case by (simp add: agree_base)
next
  case (10 subCodec c imps) show ?case by (simp add: agree_base)
next
  case (11 kind c imps) show ?case by (simp add: agree_base)
next
  case (14 c subCodecs imps) show ?case by (simp add: agree_base)
next
  case (15 c field flds imps) show ?case by (simp add: agree_base)
next
  case (17 c imps) show ?case by (simp add: agree_base)
next
  case (4 flds subCodecs c imps)
  then show ?case by (simp add: agree_objectShape)
next
  case (5 names subCodecs c imps)
  then show ?case by (simp add: agree_objectShape)
next
  case (6 subCodec c imps)
  then show ?case by (simp add: agree_map)
next
  case (7 subCodecs c imps)
  then show ?case by (simp add: agree_map)
next
  case (16 c field flds subCodec subCodecs imps)
  show ?case
  proof
    fix j
    have A: "agree (walkField c field subCodec imps) imps (walkField c field subCodec j) j"
      using 16(1) by blast
    have B: "agree (walkFields c flds subCodecs (snd (walkField c field subCodec imps)))
                (snd (walkField c field subCodec imps))
                (walkFields c flds subCodecs (snd (walkField c field subCodec j)))
                (snd (walkField c field subCodec j))"
      if "fst (walkField c field subCodec imps) = Inr a" for a
      using 16(2)[OF prod.collapse that] by blast
    show "agree (walkFields c (field # flds) (subCodec # subCodecs) imps) imps
            (walkFields c (field # flds) (subCodec # subCodecs) j) j"
      unfolding walkFields.simps by (rule agree_seq[OF A B])
  qed
next
  case (18 c subCodec subCodecs imps)
  show ?case
  proof
    fix j
    have A: "agree (walkCodec subCodec c imps) imps (walkCodec subCodec c j) j"
      using 18(1) by blast
    have B: "agree (walkSubcodecs c subCodecs (snd (walkCodec subCodec c imps)))
                (snd (walkCodec subCodec c imps))
                (walkSubcodecs c subCodecs (snd (walkCodec subCodec c j)))
                (snd (walkCodec subCodec c j))"
      if "fst (walkCodec subCodec c imps) = Inr a" for a
      using 18(2)[OF prod.collapse that] by blast
    show "agree (walkSubcodecs c (subCodec # subCodecs) imps) imps
            (walkSubcodecs c (subCodec # subCodecs) j) j"
      unfolding walkSubcodecs.simps by (rule agree_seq[OF A B])
  qed
qed (unfold walkField.simps, (blast intro: agree_fieldLine)+)


lemma walk_imports_distinct:
  "distinct imps \<Longrightarrow> distinct (snd (walkCodec codec c imps))"
  "distinct imps \<Longrightarrow> distinct (snd (walkField c field codec imps))"
  "distinct imps \<Longrightarrow> distinct (snd (walkFields c flds subCodecs imps))"
  "distinct imps \<Longrightarrow> distinct (snd (walkSubcodecs c subCodecs imps))"
proof (induction codec c imps and c field codec imps and c flds subCodecs imps
    and c subCodecs imps rule: walkCodec_walkField_walkFields_walkSubcodecs.induct)
qed (auto simp: snd_fieldLine snd_objectShape distinct_Set_add split: prod.splits sum.splits)

lemma walkCodec_signature_indep: "fst (walkCodec codec c i) = fst (walkCodec codec c j)"
  using walk_agree(1)[of codec c i] by (simp add: agree_def)

lemma walkCodec_imports_mono: "set i \<subseteq> set (snd (walkCodec codec c i))"
  using walk_agree(1)[of codec c i] by (simp add: agree_def)

lemma walkCodec_imports_union:
  "set (snd (walkCodec codec c i)) = set i \<union> set (snd (walkCodec codec c []))"
proof -
  from walk_agree(1)[of codec c i]
  have "agree (walkCodec codec c i) i (walkCodec codec c []) []" by blast
  then show ?thesis by (auto simp: agree_def)
qed



subsection \<open>The cardinality wrapper\<close>

text \<open>
  C3. For every signature \<open>T\<close> the wrapper returns \<open>T\<close> itself for \<open>ONE\<close>, \<open>T\<close> followed by
  \<^verbatim>\<open>[]\<close> for \<open>MANY\<close>, \<open>T\<close> followed by \<^verbatim>\<open> | null\<close> for \<open>AT_MOST_ONE\<close>, and
  \<^verbatim>\<open>[(T), ...(T)[]]\<close> for \<open>AT_LEAST_ONE\<close>; on every cardinality value outside these four it
  throws the "unexpected cardinality" error, and it throws on no other. On \<^verbatim>\<open>string\<close> and
  \<open>AT_LEAST_ONE\<close> the result is \<^verbatim>\<open>[(string), ...(string)[]]\<close>.
\<close>

theorem applyCardinalityToTsType_table:
  "applyCardinalityToTsType T ONE = Inr T
   \<and> applyCardinalityToTsType T MANY = Inr (T @ ''[]'')
   \<and> applyCardinalityToTsType T AT_MOST_ONE = Inr (T @ '' | null'')
   \<and> applyCardinalityToTsType T AT_LEAST_ONE = Inr (''[('' @ T @ ''), ...('' @ T @ '')[]]'')
   \<and> (\<forall>n. applyCardinalityToTsType T (OtherCardinality n)
          = Inl (UnexpectedCardinality (OtherCardinality n)))
   \<and> (\<forall>k. isl (applyCardinalityToTsType T k) = (k \<notin> {ONE, MANY, AT_MOST_ONE, AT_LEAST_ONE}))
   \<and> applyCardinalityToTsType ''string'' AT_LEAST_ONE = Inr ''[(string), ...(string)[]]''"
proof -
  have "isl (applyCardinalityToTsType T k) = (k \<notin> {ONE, MANY, AT_MOST_ONE, AT_LEAST_ONE})" for k
    by (cases k) simp_all
  then show ?thesis by simp
qed

subsection \<open>Enum scalars\<close>

text \<open>
  C7. The walk of an enum scalar with the values \<open>vs\<close> returns, in parentheses, the values
  in their declared order, each rendered by \<^verbatim>\<open>JSON.stringify\<close> and joined with \<^verbatim>\<open> | \<close>.
  Where no value holds a double quote, a backslash or a control character, each value is
  rendered as itself between double quotes. The result is the same in every context and
  leaves the imports as they were.
\<close>

theorem walkCodec_enum:
  "walkCodec (ScalarCodec tsType importedType (Some vs)) c imps
     = (Inr (''('' @ join '' | '' (map JSON_stringify vs) @ '')''), imps)
   \<and> walkCodec (ScalarCodec tsType importedType (Some vs)) c' imps
     = walkCodec (ScalarCodec tsType importedType (Some vs)) c imps
   \<and> ((\<forall>v\<in>set vs. \<forall>ch\<in>set v. ch \<noteq> CHR 0x22 \<and> ch \<noteq> CHR 0x5C \<and> 0x20 \<le> (of_char ch :: nat))
        \<longrightarrow> fst (walkCodec (ScalarCodec tsType importedType (Some vs)) c imps)
            = Inr (''('' @ join '' | '' (map (\<lambda>v. [CHR 0x22] @ v @ [CHR 0x22]) vs) @ '')''))"
  by (auto simp: map_JSON_stringify_plain)

theorem walkCodec_enum_witness:
  \<open>walkCodec (ScalarCodec ''Color'' False (Some [''a'', ''b'']))
     \<lparr>indent = [], optionalNulls = False, readonly = False\<rparr> []
   = (Inr ''("a" | "b")'', [])\<close>
proof -
  have h: "\<forall>v\<in>set [''a'', ''b'']. \<forall>ch\<in>set v.
       ch \<noteq> CHR 0x22 \<and> ch \<noteq> CHR 0x5C \<and> 0x20 \<le> (of_char ch :: nat)"
    by simp
  show ?thesis
    using h walkCodec_enum [of "''Color''" False "[''a'', ''b'']"
        "\<lparr>indent = [], optionalNulls = False, readonly = False\<rparr>" "[]"]
    by (simp add: prod_eq_iff)
qed

text \<open>
  C10. The walk of an enum scalar returns before the \<^verbatim>\<open>importedType\<close> test: also with
  \<^verbatim>\<open>importedType\<close> set, the imports are left as they were. A plain scalar with
  \<^verbatim>\<open>importedType\<close> set registers its type name, one without the flag registers nothing.
\<close>

theorem walkCodec_enum_registers_nothing:
  "snd (walkCodec (ScalarCodec tsType True (Some vs)) c imps) = imps
   \<and> snd (walkCodec (ScalarCodec tsType False (Some vs)) c imps) = imps
   \<and> snd (walkCodec (ScalarCodec tsType True None) c imps) = Set_add tsType imps
   \<and> set (snd (walkCodec (ScalarCodec tsType True None) c imps)) = insert tsType (set imps)
   \<and> snd (walkCodec (ScalarCodec tsType False None) c imps) = imps"
  by (simp add: set_Set_add)

subsection \<open>The query analyzer\<close>

text \<open>
  C2. Whenever the analyzer returns a result \<open>r\<close>: \<open>args r\<close> is the signature of the walk
  of the input codec in the context with \<open>optionalNulls\<close> and \<open>readonly\<close> set, with no
  cardinality wrapper around it, and \<open>result r\<close> is the cardinality wrapper, at the
  cardinality the negotiation returned, around the signature of the walk of the output
  codec in the context with \<open>optionalNulls\<close> and \<open>readonly\<close> cleared. Both signatures are the
  same whatever the imports hold when the walk starts. The result carries the
  negotiated cardinality and the query text.
\<close>

theorem analyzeQuery_types:
  assumes "analyzeQuery (Inr (k, inCodec, outCodec)) q = Inr r"
  shows "(\<forall>i. fst (walkCodec inCodec \<lparr>indent = [], optionalNulls = True, readonly = True\<rparr> i)
            = Inr (args r))
    \<and> (\<exists>t. (\<forall>i. fst (walkCodec outCodec \<lparr>indent = [], optionalNulls = False, readonly = False\<rparr> i)
                 = Inr t)
           \<and> applyCardinalityToTsType t k = Inr (result r))
    \<and> QueryType.cardinality r = k \<and> query r = q"
proof -
  let ?ci = "\<lparr>indent = [], optionalNulls = True, readonly = True\<rparr>"
  let ?co = "\<lparr>indent = [], optionalNulls = False, readonly = False\<rparr>"
  obtain a i1 where w1: "walkCodec inCodec ?ci [] = (Inr a, i1)"
    using assms by (auto simp: analyzeQuery_def split: prod.splits sum.splits)
  obtain t i2 where w2: "walkCodec outCodec ?co i1 = (Inr t, i2)"
    using assms w1 by (auto simp: analyzeQuery_def split: prod.splits sum.splits)
  obtain res where w3: "applyCardinalityToTsType t k = Inr res"
    using assms w1 w2 by (auto simp: analyzeQuery_def split: prod.splits sum.splits)
  from assms w1 w2 w3
  have r: "r = \<lparr>args = a, result = res, cardinality = k, query = q, imports = i2\<rparr>"
    by (simp add: analyzeQuery_def)
  have "fst (walkCodec inCodec ?ci i) = Inr a" for i
    using walkCodec_signature_indep[of inCodec ?ci i "[]"] w1 by simp
  moreover have "fst (walkCodec outCodec ?co i) = Inr t" for i
    using walkCodec_signature_indep[of outCodec ?co i i1] w2 by simp
  ultimately show ?thesis using r w3 by auto
qed

theorem analyzeQuery_types_witness:
  "analyzeQuery (Inr (AT_MOST_ONE, NullCodec, ScalarCodec ''number'' False None)) ''select 1''
     = Inr \<lparr>args = ''null'', result = ''number | null'', cardinality = AT_MOST_ONE,
            query = ''select 1'', imports = []\<rparr>
   \<and> fst (walkCodec NullCodec \<lparr>indent = [], optionalNulls = True, readonly = True\<rparr> []) = Inr ''null''
   \<and> fst (walkCodec (ScalarCodec ''number'' False None)
           \<lparr>indent = [], optionalNulls = False, readonly = False\<rparr> []) = Inr ''number''
   \<and> applyCardinalityToTsType ''number'' AT_MOST_ONE = Inr ''number | null''"
proof -
  have h: "analyzeQuery (Inr (AT_MOST_ONE, NullCodec, ScalarCodec ''number'' False None)) ''select 1''
     = Inr \<lparr>args = ''null'', result = ''number | null'', cardinality = AT_MOST_ONE,
            query = ''select 1'', imports = []\<rparr>"
    by (simp add: analyzeQuery_def)
  from analyzeQuery_types[OF h] h show ?thesis by simp
qed

text \<open>
  C6. The imports are insert-only and hold each name once: a walk leaves every name it
  was given in the set, and a set without duplicates stays without duplicates. In the
  analyzer both walks write into the one set, the walk of the output codec starting from
  what the walk of the input codec left: the returned imports have no duplicates and hold
  exactly the names the walk of the input codec registers together with the names the
  walk of the output codec registers.
\<close>

theorem analyzeQuery_imports:
  "set imps \<subseteq> set (snd (walkCodec codec c imps))
   \<and> (distinct imps \<longrightarrow> distinct (snd (walkCodec codec c imps)))
   \<and> (analyzeQuery (Inr (k, inCodec, outCodec)) q = Inr r \<longrightarrow>
        imports r
          = snd (walkCodec outCodec \<lparr>indent = [], optionalNulls = False, readonly = False\<rparr>
                  (snd (walkCodec inCodec \<lparr>indent = [], optionalNulls = True, readonly = True\<rparr> [])))
        \<and> distinct (imports r)
        \<and> set (imports r)
          = set (snd (walkCodec inCodec \<lparr>indent = [], optionalNulls = True, readonly = True\<rparr> []))
            \<union> set (snd (walkCodec outCodec \<lparr>indent = [], optionalNulls = False, readonly = False\<rparr> [])))"
proof (intro conjI impI)
  show "set imps \<subseteq> set (snd (walkCodec codec c imps))"
    by (rule walkCodec_imports_mono)
  show "distinct (snd (walkCodec codec c imps))" if "distinct imps"
    using that by (rule walk_imports_distinct(1))
next
  let ?ci = "\<lparr>indent = [], optionalNulls = True, readonly = True\<rparr>"
  let ?co = "\<lparr>indent = [], optionalNulls = False, readonly = False\<rparr>"
  assume a: "analyzeQuery (Inr (k, inCodec, outCodec)) q = Inr r"
  then show 1: "imports r = snd (walkCodec outCodec ?co (snd (walkCodec inCodec ?ci [])))"
    by (auto simp: analyzeQuery_def split: prod.splits sum.splits)
  have "distinct (snd (walkCodec inCodec ?ci []))"
    by (rule walk_imports_distinct(1)) simp
  then show "distinct (imports r)"
    unfolding 1 by (rule walk_imports_distinct(1))
  show "set (imports r) = set (snd (walkCodec inCodec ?ci [])) \<union> set (snd (walkCodec outCodec ?co []))"
    unfolding 1 by (rule walkCodec_imports_union)
qed

theorem analyzeQuery_imports_witness:
  "analyzeQuery (Inr (ONE, ScalarCodec ''Range'' True None, ScalarCodec ''Range'' True None)) ''q''
     = Inr \<lparr>args = ''Range'', result = ''Range'', cardinality = ONE, query = ''q'',
            imports = [''Range'']\<rparr>
   \<and> distinct [''Range'']
   \<and> snd (walkCodec (ScalarCodec ''Range'' True None)
           \<lparr>indent = [], optionalNulls = True, readonly = True\<rparr> []) = [''Range'']
   \<and> snd (walkCodec (ScalarCodec ''Range'' True None)
           \<lparr>indent = [], optionalNulls = False, readonly = False\<rparr> [''Range'']) = [''Range'']"
proof -
  have h: "analyzeQuery (Inr (ONE, ScalarCodec ''Range'' True None, ScalarCodec ''Range'' True None)) ''q''
     = Inr \<lparr>args = ''Range'', result = ''Range'', cardinality = ONE, query = ''q'',
            imports = [''Range'']\<rparr>"
    by (simp add: analyzeQuery_def Set_add_def)
  have d: "distinct ([] :: string list)" by simp
  from analyzeQuery_imports[of "[]" "ScalarCodec ''Range'' True None"
      "\<lparr>indent = [], optionalNulls = True, readonly = True\<rparr>" ONE
      "ScalarCodec ''Range'' True None" "ScalarCodec ''Range'' True None" "''q''"
      "\<lparr>args = ''Range'', result = ''Range'', cardinality = ONE, query = ''q'',
            imports = [''Range'']\<rparr>"] h d
  show ?thesis by (simp add: Set_add_def)
qed

subsection \<open>Fields of objects and named tuples\<close>

text \<open>
  C1, as the code has it. For a field whose cardinality is \<open>AT_MOST_ONE\<close>, walked in a
  context with \<open>optionalNulls\<close> set, and whose sub-codec walks to the signature \<open>t\<close>: the
  field is rendered as an optional key, the quoted name followed by \<^verbatim>\<open>?\<close>, and its value
  type is \<open>t\<close> with the null-union of the cardinality wrapper, \<^verbatim>\<open>t | null\<close>. The
  wrapper is applied to every field; the \<^verbatim>\<open>?\<close> is added to the key, it replaces nothing.
\<close>

theorem walkField_optional_key:
  assumes "optionalNulls c" and "Field.cardinality field = AT_MOST_ONE"
    and "walkCodec sub (c\<lparr>indent := indent c @ ''  ''\<rparr>) imps = (Inr t, imps')"
  shows "walkField c field sub imps
     = (Inr (indent c @ ''  '' @ JSON_stringify (name field) @ ''?: '' @ t @ '' | null;''), imps')"
proof (cases sub)
  case (SetCodec inner)
  with assms(3) show ?thesis by simp
qed (use assms in simp_all)

theorem walkField_optional_key_witness:
  \<open>walkField \<lparr>indent = [], optionalNulls = True, readonly = True\<rparr>
      \<lparr>name = ''a'', cardinality = AT_MOST_ONE\<rparr> (ScalarCodec ''string'' False None) []
    = (Inr ''  "a"?: string | null;'', [])\<close>
proof -
  let ?c = "\<lparr>indent = [], optionalNulls = True, readonly = True\<rparr>"
  let ?f = "\<lparr>name = ''a'', cardinality = AT_MOST_ONE\<rparr>"
  have 1: "optionalNulls ?c" by simp
  have 2: "Field.cardinality ?f = AT_MOST_ONE" by simp
  have 3: "walkCodec (ScalarCodec ''string'' False None) (?c\<lparr>indent := indent ?c @ ''  ''\<rparr>) []
      = (Inr ''string'', [])" by simp
  from walkField_optional_key[OF 1 2 3] show ?thesis
    by (simp add: JSON_stringify_def quoteChar_def)
qed

text \<open>
  C1, as the claim states it, fails: the claim has the value type of such a field
  without the null-union. The field \<^verbatim>\<open>a\<close> of cardinality \<open>AT_MOST_ONE\<close> over the scalar
  \<^verbatim>\<open>string\<close>, walked with \<open>optionalNulls\<close> set, is rendered \<^verbatim>\<open>"a"?: string | null;\<close> and
  not \<^verbatim>\<open>"a"?: string;\<close>.
\<close>

theorem walkField_optional_key_counterexample:
  \<open>walkCodec (ScalarCodec ''string'' False None)
      \<lparr>indent = ''  '', optionalNulls = True, readonly = True\<rparr> [] = (Inr ''string'', [])
   \<and> walkField \<lparr>indent = [], optionalNulls = True, readonly = True\<rparr>
        \<lparr>name = ''a'', cardinality = AT_MOST_ONE\<rparr> (ScalarCodec ''string'' False None) []
      = (Inr ''  "a"?: string | null;'', [])
   \<and> walkField \<lparr>indent = [], optionalNulls = True, readonly = True\<rparr>
        \<lparr>name = ''a'', cardinality = AT_MOST_ONE\<rparr> (ScalarCodec ''string'' False None) []
      \<noteq> (Inr ''  "a"?: string;'', [])
   \<and> walkCodec (ObjectCodec [\<lparr>name = ''a'', cardinality = AT_MOST_ONE\<rparr>]
                  [ScalarCodec ''string'' False None])
        \<lparr>indent = [], optionalNulls = True, readonly = True\<rparr> []
      = (Inr ''Readonly<{\<newline>  "a"?: string | null;\<newline>}>'', [])\<close>
  by (simp add: JSON_stringify_def quoteChar_def)



subsection \<open>Ranges and multiranges\<close>

text \<open>
  C5. The walk of a range (of a multirange) whose sub-codec is not a scalar codec throws
  the "expected range subtype to be scalar type" (the "expected multirange subtype to be
  scalar type") error and leaves the imports alone. Where the sub-codec is a scalar
  codec, with the signature \<open>t\<close>, the walk registers \<^verbatim>\<open>Range\<close> (\<^verbatim>\<open>MultiRange\<close>) in the
  imports, walks the sub-codec, and returns \<^verbatim>\<open>Range<t>\<close> (\<^verbatim>\<open>MultiRange<t>\<close>).
\<close>

theorem walkCodec_range:
  "(\<not> isScalarCodec sub \<longrightarrow>
      walkCodec (RangeCodec sub) c imps = (Inl RangeSubtypeNotScalar, imps)
      \<and> walkCodec (MultiRangeCodec sub) c imps = (Inl MultiRangeSubtypeNotScalar, imps))
   \<and> (isScalarCodec sub \<longrightarrow>
        (\<exists>t. (\<forall>i. fst (walkCodec sub c i) = Inr t)
           \<and> fst (walkCodec (RangeCodec sub) c imps) = Inr (''Range<'' @ t @ ''>'')
           \<and> snd (walkCodec (RangeCodec sub) c imps) = snd (walkCodec sub c (Set_add ''Range'' imps))
           \<and> ''Range'' \<in> set (snd (walkCodec (RangeCodec sub) c imps))
           \<and> fst (walkCodec (MultiRangeCodec sub) c imps) = Inr (''MultiRange<'' @ t @ ''>'')
           \<and> snd (walkCodec (MultiRangeCodec sub) c imps)
               = snd (walkCodec sub c (Set_add ''MultiRange'' imps))
           \<and> ''MultiRange'' \<in> set (snd (walkCodec (MultiRangeCodec sub) c imps))))"
proof (cases sub)
  case (ScalarCodec tsType importedType vals)
  then show ?thesis
    by (cases vals) (auto simp: set_Set_add)
qed simp_all

theorem walkCodec_range_witness:
  "walkCodec (RangeCodec (ObjectCodec [] [])) \<lparr>indent = [], optionalNulls = False, readonly = False\<rparr> []
     = (Inl RangeSubtypeNotScalar, [])
   \<and> walkCodec (MultiRangeCodec (ObjectCodec [] []))
        \<lparr>indent = [], optionalNulls = False, readonly = False\<rparr> []
     = (Inl MultiRangeSubtypeNotScalar, [])
   \<and> walkCodec (RangeCodec (ScalarCodec ''number'' False None))
        \<lparr>indent = [], optionalNulls = False, readonly = False\<rparr> []
     = (Inr ''Range<number>'', [''Range''])
   \<and> walkCodec (MultiRangeCodec (ScalarCodec ''number'' False None))
        \<lparr>indent = [], optionalNulls = False, readonly = False\<rparr> []
     = (Inr ''MultiRange<number>'', [''MultiRange''])"
proof -
  have 1: "\<not> isScalarCodec (ObjectCodec [] [])" by simp
  have 2: "isScalarCodec (ScalarCodec ''number'' False None)" by simp
  from walkCodec_range[of "ObjectCodec [] []" "\<lparr>indent = [], optionalNulls = False, readonly = False\<rparr>" "[]"]
    walkCodec_range[of "ScalarCodec ''number'' False None"
      "\<lparr>indent = [], optionalNulls = False, readonly = False\<rparr>" "[]"] 1 2
  show ?thesis by (simp add: Set_add_def)
qed

subsection \<open>Set codecs outside a field\<close>



subsection \<open>Immutability marking\<close>















end
